theory Spec2Isabelle
  imports Main
begin

section \<open>Civil dates\<close>

text \<open>
  A \<^verbatim>\<open>Temporal.PlainDate\<close> is an ISO calendar date without time of day. It is modelled by
  its day number, counted from 1970-01-01 (day 0). On day numbers
  \<^verbatim>\<open>d.add({ days: n })\<close> is \<open>d + n\<close> and \<^verbatim>\<open>a.since(b).total({ unit: 'days' })\<close> is
  \<open>a - b\<close>. The range limit of Temporal (about 10^8 days around 1970) is not modelled.
\<close>

type_synonym PlainDate = int

definition isLeapYear :: "int \<Rightarrow> bool" where
  "isLeapYear y = (if y mod 100 = 0 then y mod 400 = 0 else y mod 4 = 0)"

definition daysBeforeYear :: "int \<Rightarrow> int" where
  "daysBeforeYear y =
     365 * (y - 1970) + ((y - 1) div 4 - 492) - ((y - 1) div 100 - 19) + ((y - 1) div 400 - 4)"

definition monthLengths :: "int \<Rightarrow> int list" where
  "monthLengths y =
     [31, if isLeapYear y then 29 else 28, 31, 30, 31, 30, 31, 31, 30, 31, 30, 31]"

text \<open>\<^verbatim>\<open>Temporal.PlainDate.from({ year, month, day })\<close>, months counted from 1.\<close>

definition PlainDate_from :: "int \<Rightarrow> int \<Rightarrow> int \<Rightarrow> PlainDate" where
  "PlainDate_from y m d =
     daysBeforeYear y + sum_list (take (nat (m - 1)) (monthLengths y)) + (d - 1)"

text \<open>\<^verbatim>\<open>Temporal.PlainDate.compare(a, b)\<close>: -1, 0 or 1.\<close>

definition PlainDate_compare :: "PlainDate \<Rightarrow> PlainDate \<Rightarrow> int" where
  "PlainDate_compare a b = (if a < b then - 1 else if a = b then 0 else 1)"

section \<open>The Hebrew-calendar collaborator\<close>

text \<open>
  \<^verbatim>\<open>JewishCalendar.ts\<close> is not part of the sources at hand. What
  \<^verbatim>\<open>YerushalmiYomiCalculator\<close> uses of the class is taken as a parameter:
  the two holiday indices, the Hebrew year of a civil date
  (\<^verbatim>\<open>new JewishCalendar(date).getJewishYear()\<close>) and the civil date of a Hebrew
  year, month and day (\<^verbatim>\<open>new JewishCalendar(year, month, day).getDate()\<close>, which is also
  what \<^verbatim>\<open>getDate()\<close> gives after \<^verbatim>\<open>setJewishYear(year)\<close> on an object holding that
  month and day).
\<close>

record JewishCalendarClass =
  YOM_KIPPUR :: int
  TISHA_BEAV :: int
  getJewishYear :: "PlainDate \<Rightarrow> int"
  jewishToDate :: "int \<Rightarrow> int \<Rightarrow> int \<Rightarrow> PlainDate"

text \<open>
  The argument of \<^verbatim>\<open>getDafYomiYerushalmi\<close>: an object read through
  \<^verbatim>\<open>getDate()\<close> and \<^verbatim>\<open>getYomTovIndex()\<close>.
\<close>

record JewishCalendar =
  getDate :: PlainDate
  getYomTovIndex :: int

text \<open>\<^verbatim>\<open>new Daf(masechta, daf)\<close>.\<close>

record Daf =
  masechtaNumber :: int
  daf :: int

datatype error = IllegalArgumentException

text \<open>
  What \<^verbatim>\<open>getDafYomiYerushalmi\<close> returns when it does not throw: \<^verbatim>\<open>null\<close>, a
  \<^verbatim>\<open>Daf\<close>, or \<^verbatim>\<open>undefined\<close> when the final walk assigns nothing to \<^verbatim>\<open>dafYomi\<close>.
\<close>

datatype outcome = Null | Undefined | Page Daf

section \<open>Constants of YerushalmiYomiCalculator\<close>

text \<open>
  \<^verbatim>\<open>Calendar.FEBRUARY\<close> comes from \<^verbatim>\<open>polyfills/Utils.ts\<close>, which is not at hand; the
  doc comment of \<^verbatim>\<open>DAF_YOMI_START_DAY\<close> (February 2, 1980) fixes the zero-based
  month number 1.
\<close>

definition Calendar_FEBRUARY :: int where
  "Calendar_FEBRUARY = 1"

definition DAF_YOMI_START_DAY :: PlainDate where
  "DAF_YOMI_START_DAY = PlainDate_from 1980 (Calendar_FEBRUARY + 1) 2"

definition WHOLE_SHAS_DAFS :: int where
  "WHOLE_SHAS_DAFS = 1554"

definition BLATT_PER_MASECHTA :: "int list" where
  "BLATT_PER_MASECHTA = [68, 37, 34, 44, 31, 59, 26, 33, 28, 20, 13, 92, 65, 71, 22,
     22, 42, 26, 26, 33, 34, 22, 19, 85, 72, 47, 40, 47, 54, 48, 44, 37, 34, 44, 9, 57, 37, 19, 13]"

section \<open>rangeDates and getNumOfSpecialDays\<close>

definition rangeDates :: "PlainDate \<Rightarrow> PlainDate \<Rightarrow> PlainDate \<Rightarrow> bool \<Rightarrow> bool" where
  "rangeDates start middle end' inclusive =
     (let acceptedValues = (if inclusive then [1, 0] else [1])
      in PlainDate_compare middle start \<in> set acceptedValues
         \<and> PlainDate_compare end' middle \<in> set acceptedValues)"

text \<open>
  The loop of \<^verbatim>\<open>getNumOfSpecialDays\<close> over the Hebrew years \<open>i\<close>, with the counter
  \<open>specialDays\<close> passed along. The parameter \<open>inclusive\<close> of \<open>rangeDates\<close> is left at
  its default \<open>true\<close>.
\<close>

function specialDaysLoop ::
  "JewishCalendarClass \<Rightarrow> PlainDate \<Rightarrow> PlainDate \<Rightarrow> int \<Rightarrow> int \<Rightarrow> int \<Rightarrow> int" where
  "specialDaysLoop cal start end' i jewishEndYear specialDays =
     (if i \<le> jewishEndYear then
        specialDaysLoop cal start end' (i + 1) jewishEndYear
          ((if rangeDates start (jewishToDate cal i 7 10) end' True
            then specialDays + 1 else specialDays)
           + (if rangeDates start (jewishToDate cal i 5 9) end' True then 1 else 0))
      else specialDays)"
  by pat_completeness auto
termination
  by (relation "measure (\<lambda>(cal, start, end', i, jewishEndYear, specialDays).
        nat (jewishEndYear + 1 - i))") auto

declare specialDaysLoop.simps [simp del]

definition getNumOfSpecialDays :: "JewishCalendarClass \<Rightarrow> PlainDate \<Rightarrow> PlainDate \<Rightarrow> int" where
  "getNumOfSpecialDays cal start end' =
     (let jewishStartYear = getJewishYear cal start;
          jewishEndYear = getJewishYear cal end'
      in specialDaysLoop cal start end' jewishStartYear jewishEndYear 0)"

lemma specialDaysLoop_ge: "specialDays \<le> specialDaysLoop cal start end' i jewishEndYear specialDays"
proof (induction cal start end' i jewishEndYear specialDays rule: specialDaysLoop.induct)
  case (1 cal start end' i jewishEndYear specialDays)
  show ?case
  proof (cases "i \<le> jewishEndYear")
    case True
    from "1.IH" [OF True] True show ?thesis
      by (subst specialDaysLoop.simps) (simp split: if_splits)
  next
    case False
    then show ?thesis by (subst specialDaysLoop.simps) simp
  qed
qed

lemma getNumOfSpecialDays_nonneg: "0 \<le> getNumOfSpecialDays cal start end'"
  unfolding getNumOfSpecialDays_def Let_def by (rule specialDaysLoop_ge)

section \<open>getDafYomiYerushalmi\<close>

text \<open>
  The final walk over \<^verbatim>\<open>BLATT_PER_MASECHTA\<close> (lines 83 to 90), with the loop index
  \<open>i\<close> and the variables \<open>total\<close> (here \<open>total'\<close>) and \<open>masechta\<close>; \<open>None\<close> when the
  loop ends without the \<^verbatim>\<open>break\<close>, which leaves \<^verbatim>\<open>dafYomi\<close> undefined.
\<close>

function findDaf :: "nat \<Rightarrow> int \<Rightarrow> int \<Rightarrow> Daf option" where
  "findDaf i total' masechta =
     (if i < length BLATT_PER_MASECHTA then
        (if total' \<le> BLATT_PER_MASECHTA ! i
         then Some \<lparr>masechtaNumber = masechta, daf = total' + 1\<rparr>
         else findDaf (i + 1) (total' - BLATT_PER_MASECHTA ! i) (masechta + 1))
      else None)"
  by pat_completeness auto
termination
  by (relation "measure (\<lambda>(i, total', masechta). length BLATT_PER_MASECHTA - i)") auto

declare findDaf.simps [simp del]

lemma PlainDate_compare_less: "(PlainDate_compare a b = - 1) = (a < b)"
  by (simp add: PlainDate_compare_def)

text \<open>
  The cycle search (lines 66 to 73): \<open>nextCycle\<close> and \<open>prevCycle\<close> are the two
  variables of the \<^verbatim>\<open>while\<close> loop, returned as they stand when the loop ends. One
  round sets \<open>prevCycle\<close> to \<open>nextCycle\<close> and moves \<open>nextCycle\<close> on by
  \<open>WHOLE_SHAS_DAFS\<close> days and then by the special days counted from \<open>prevCycle\<close> to
  that date. The count is never negative, so the loop ends.
\<close>

function cycleLoop ::
  "JewishCalendarClass \<Rightarrow> PlainDate \<Rightarrow> PlainDate \<Rightarrow> PlainDate \<Rightarrow> PlainDate \<times> PlainDate" where
  "cycleLoop cal requested nextCycle prevCycle =
     (if PlainDate_compare nextCycle requested = - 1 then
        cycleLoop cal requested
          (nextCycle + WHOLE_SHAS_DAFS
             + getNumOfSpecialDays cal nextCycle (nextCycle + WHOLE_SHAS_DAFS))
          nextCycle
      else (prevCycle, nextCycle))"
  by pat_completeness auto
termination
proof (relation "measure (\<lambda>(cal, requested, nextCycle, prevCycle). nat (requested - nextCycle))")
  show "wf (measure (\<lambda>(cal, requested, nextCycle, prevCycle). nat (requested - nextCycle)))"
    by simp
next
  fix cal :: JewishCalendarClass and requested nextCycle prevCycle :: PlainDate
  assume "PlainDate_compare nextCycle requested = - 1"
  then have "nextCycle < requested"
    by (simp add: PlainDate_compare_less)
  moreover have "0 \<le> getNumOfSpecialDays cal nextCycle (nextCycle + WHOLE_SHAS_DAFS)"
    by (rule getNumOfSpecialDays_nonneg)
  ultimately show "((cal, requested,
      nextCycle + WHOLE_SHAS_DAFS + getNumOfSpecialDays cal nextCycle (nextCycle + WHOLE_SHAS_DAFS),
      nextCycle), cal, requested, nextCycle, prevCycle)
    \<in> measure (\<lambda>(cal, requested, nextCycle, prevCycle). nat (requested - nextCycle))"
    by (simp add: WHOLE_SHAS_DAFS_def)
qed

declare cycleLoop.simps [simp del]

text \<open>
  Lines 47 to 80 after the two checks: the start of the cycle that the search settles on
  (\<open>prevCycle\<close>) and the adjusted offset (\<open>total\<close>, the days since \<open>prevCycle\<close> less the
  special days counted from \<open>prevCycle\<close> to the requested date).
\<close>

definition cycleOffset :: "JewishCalendarClass \<Rightarrow> PlainDate \<Rightarrow> PlainDate \<times> int" where
  "cycleOffset cal requested =
     (let prevCycle = fst (cycleLoop cal requested DAF_YOMI_START_DAY DAF_YOMI_START_DAY);
          dafNo = requested - prevCycle;
          specialDays = getNumOfSpecialDays cal prevCycle requested
      in (prevCycle, dafNo - specialDays))"

definition getDafYomiYerushalmi :: "JewishCalendarClass \<Rightarrow> JewishCalendar \<Rightarrow> error + outcome" where
  "getDafYomiYerushalmi cal jewishCalendar =
     (let requested = getDate jewishCalendar in
      if getYomTovIndex jewishCalendar = YOM_KIPPUR cal
         \<or> getYomTovIndex jewishCalendar = TISHA_BEAV cal
      then Inr Null
      else if PlainDate_compare requested DAF_YOMI_START_DAY = - 1
      then Inl IllegalArgumentException
      else (case findDaf 0 (snd (cycleOffset cal requested)) 0 of
              Some dafYomi \<Rightarrow> Inr (Page dafYomi)
            | None \<Rightarrow> Inr Undefined))"

text \<open>
  The cycle boundaries that the search goes through: the start day, and after a
  boundary the date that one round of the loop body (lines 67 to 72) computes from it.
\<close>

fun cycleBoundary :: "JewishCalendarClass \<Rightarrow> nat \<Rightarrow> PlainDate" where
  "cycleBoundary cal 0 = DAF_YOMI_START_DAY"
| "cycleBoundary cal (Suc k) =
     cycleBoundary cal k + WHOLE_SHAS_DAFS
       + getNumOfSpecialDays cal (cycleBoundary cal k) (cycleBoundary cal k + WHOLE_SHAS_DAFS)"

section \<open>The count of special days, as the specification words it\<close>

text \<open>
  The two excluded holy days, and the civil date of the instance of one of them in a
  Hebrew year: 10 Tishrei (month 7) for Yom Kippur, 9 Av (month 5) for Tisha B'Av.
\<close>

datatype holyDay = YomKippur | TishaBeav

definition holyDayDate :: "JewishCalendarClass \<Rightarrow> int \<Rightarrow> holyDay \<Rightarrow> PlainDate" where
  "holyDayDate cal y t =
     (case t of YomKippur \<Rightarrow> jewishToDate cal y 7 10 | TishaBeav \<Rightarrow> jewishToDate cal y 5 9)"

text \<open>
  The pairs (Hebrew year, holy day) with the year between \<open>firstYear\<close> and \<open>lastYear\<close>
  and the date of the instance in the closed interval from \<open>start\<close> to \<open>end'\<close>.
\<close>

definition instancesWithin ::
  "JewishCalendarClass \<Rightarrow> PlainDate \<Rightarrow> PlainDate \<Rightarrow> int \<Rightarrow> int \<Rightarrow> (int \<times> holyDay) set" where
  "instancesWithin cal start end' firstYear lastYear =
     Set.filter (\<lambda>(y, t). start \<le> holyDayDate cal y t \<and> holyDayDate cal y t \<le> end')
       ({firstYear..lastYear} \<times> {YomKippur, TishaBeav})"

text \<open>
  \<open>countSpecialDays\<close> of the specification: the number of such pairs over the Hebrew
  years from that of \<open>start\<close> to that of \<open>end'\<close>. A set holds each pair once.
\<close>

definition countSpecialDays_spec :: "JewishCalendarClass \<Rightarrow> PlainDate \<Rightarrow> PlainDate \<Rightarrow> nat" where
  "countSpecialDays_spec cal start end' =
     card (instancesWithin cal start end' (getJewishYear cal start) (getJewishYear cal end'))"

section \<open>The calendar of the years 5739 to 5745\<close>

text \<open>
  The Hebrew calendar from Rosh Hashana 5739 (1978-10-02) to the end of 5745
  (1985-09-15), as far as the calculator reads it: the Hebrew year of a civil date, by the
  civil dates of Rosh Hashana, and the civil dates of 10 Tishrei (month 7) and 9 Av
  (month 5) of each year, the only two dates that the calculator asks \<open>jewishToDate\<close>
  for. The functions are evaluated with it at dates of the first cycle and of the start
  of the second. Outside these years it is not the Hebrew calendar. 13 and 7 stand for
  the holiday indices \<open>YOM_KIPPUR\<close> and \<open>TISHA_BEAV\<close>.
\<close>

definition jewishYear5740 :: "PlainDate \<Rightarrow> int" where
  "jewishYear5740 d =
     (if d < PlainDate_from 1979 9 22 then 5739
      else if d < PlainDate_from 1980 9 11 then 5740
      else if d < PlainDate_from 1981 9 29 then 5741
      else if d < PlainDate_from 1982 9 18 then 5742
      else if d < PlainDate_from 1983 9 8 then 5743
      else if d < PlainDate_from 1984 9 27 then 5744
      else 5745)"

definition tenTishrei5740 :: "int \<Rightarrow> PlainDate" where
  "tenTishrei5740 y =
     (if y = 5739 then PlainDate_from 1978 10 11
      else if y = 5740 then PlainDate_from 1979 10 1
      else if y = 5741 then PlainDate_from 1980 9 20
      else if y = 5742 then PlainDate_from 1981 10 8
      else if y = 5743 then PlainDate_from 1982 9 27
      else if y = 5744 then PlainDate_from 1983 9 17
      else PlainDate_from 1984 10 6)"

definition nineAv5740 :: "int \<Rightarrow> PlainDate" where
  "nineAv5740 y =
     (if y = 5739 then PlainDate_from 1979 8 2
      else if y = 5740 then PlainDate_from 1980 7 22
      else if y = 5741 then PlainDate_from 1981 8 9
      else if y = 5742 then PlainDate_from 1982 7 29
      else if y = 5743 then PlainDate_from 1983 7 19
      else if y = 5744 then PlainDate_from 1984 8 7
      else PlainDate_from 1985 7 27)"

definition calendar5740 :: JewishCalendarClass where
  "calendar5740 =
     \<lparr>YOM_KIPPUR = 13, TISHA_BEAV = 7, getJewishYear = jewishYear5740,
      jewishToDate = (\<lambda>y m d. if m = 7 then tenTishrei5740 y else nineAv5740 y)\<rparr>"

section \<open>The volume table\<close>

lemma BLATT_PER_MASECHTA_length: "length BLATT_PER_MASECHTA = 39"
  by (simp add: BLATT_PER_MASECHTA_def)

text \<open>
  C8. The entries of \<open>BLATT_PER_MASECHTA\<close> add up to \<open>WHOLE_SHAS_DAFS\<close>, which is 1554.
\<close>

theorem BLATT_PER_MASECHTA_sum:
  "sum_list BLATT_PER_MASECHTA = WHOLE_SHAS_DAFS \<and> WHOLE_SHAS_DAFS = 1554"
  by (simp add: BLATT_PER_MASECHTA_def WHOLE_SHAS_DAFS_def)

section \<open>The walk over the volume table\<close>

lemma findDaf_found:
  "i < length BLATT_PER_MASECHTA \<Longrightarrow> total' \<le> sum_list (drop i BLATT_PER_MASECHTA)
   \<Longrightarrow> \<exists>dafYomi. findDaf i total' masechta = Some dafYomi"
proof (induction i total' masechta rule: findDaf.induct)
  case (1 i total' masechta)
  note lt = \<open>i < length BLATT_PER_MASECHTA\<close>
  have drop_eq: "drop i BLATT_PER_MASECHTA = BLATT_PER_MASECHTA ! i # drop (i + 1) BLATT_PER_MASECHTA"
    using lt by (simp add: Cons_nth_drop_Suc)
  show ?case
  proof (cases "total' \<le> BLATT_PER_MASECHTA ! i")
    case True
    with lt show ?thesis by (subst findDaf.simps) simp
  next
    case False
    have rest: "total' - BLATT_PER_MASECHTA ! i \<le> sum_list (drop (i + 1) BLATT_PER_MASECHTA)"
      using "1.prems"(2) drop_eq by simp
    have "i + 1 < length BLATT_PER_MASECHTA"
    proof (rule ccontr)
      assume "\<not> i + 1 < length BLATT_PER_MASECHTA"
      then have "drop (i + 1) BLATT_PER_MASECHTA = []" by simp
      with rest False show False by simp
    qed
    from "1.IH" [OF lt False this rest] obtain dafYomi
      where "findDaf (i + 1) (total' - BLATT_PER_MASECHTA ! i) (masechta + 1) = Some dafYomi" ..
    with lt False show ?thesis by (subst findDaf.simps) simp
  qed
qed

text \<open>
  C6. For every adjusted offset from 0 up to, and not including, 1554 the walk over
  \<open>BLATT_PER_MASECHTA\<close> finds a volume and ends with a result: the branch in which no
  volume matches and \<open>dafYomi\<close> stays undefined is not reached.
\<close>

theorem findDaf_always_matches:
  "0 \<le> adjustedOffset \<Longrightarrow> adjustedOffset < WHOLE_SHAS_DAFS
   \<Longrightarrow> \<exists>dafYomi. findDaf 0 adjustedOffset 0 = Some dafYomi"
proof -
  assume "adjustedOffset < WHOLE_SHAS_DAFS"
  moreover have "sum_list (drop 0 BLATT_PER_MASECHTA) = WHOLE_SHAS_DAFS"
    by (simp add: BLATT_PER_MASECHTA_def WHOLE_SHAS_DAFS_def)
  moreover have "0 < length BLATT_PER_MASECHTA"
    by (simp add: BLATT_PER_MASECHTA_length)
  ultimately show ?thesis
    using findDaf_found [of 0 adjustedOffset 0] by simp
qed

theorem findDaf_always_matches_witness:
  "(0::int) \<le> 1553 \<and> 1553 < WHOLE_SHAS_DAFS \<and> (\<exists>dafYomi. findDaf 0 1553 0 = Some dafYomi)"
  using findDaf_always_matches [of 1553] by (simp add: WHOLE_SHAS_DAFS_def)

lemma BLATT_PER_MASECHTA_pos: "x \<in> set BLATT_PER_MASECHTA \<Longrightarrow> 0 < x"
  by (auto simp: BLATT_PER_MASECHTA_def)

lemma sum_list_pos_int: "xs \<noteq> [] \<Longrightarrow> (\<And>x. x \<in> set xs \<Longrightarrow> (0::int) < x) \<Longrightarrow> 0 < sum_list xs"
proof (induction xs)
  case Nil
  then show ?case by simp
next
  case (Cons x xs)
  show ?case
  proof (cases "xs = []")
    case True
    with Cons.prems(2) [of x] show ?thesis by simp
  next
    case False
    from Cons.IH [OF False] Cons.prems(2) have "0 < sum_list xs" by simp
    moreover from Cons.prems(2) [of x] have "0 < x" by simp
    ultimately show ?thesis by simp
  qed
qed

lemma findDaf_end_of_volume:
  "j \<le> i \<Longrightarrow> i < length BLATT_PER_MASECHTA \<Longrightarrow>
   findDaf j (sum_list (take (Suc i - j) (drop j BLATT_PER_MASECHTA))) masechta
     = Some \<lparr>masechtaNumber = masechta + int (i - j), daf = BLATT_PER_MASECHTA ! i + 1\<rparr>"
proof (induction "i - j" arbitrary: j masechta)
  case 0
  then have ji: "j = i" by simp
  with "0.prems" have "take (Suc i - j) (drop j BLATT_PER_MASECHTA) = [BLATT_PER_MASECHTA ! i]"
    by (simp add: take_Suc_conv_app_nth)
  with ji "0.prems" show ?case
    by (subst findDaf.simps) simp
next
  case (Suc n)
  then have lt: "Suc j \<le> i" and n: "n = i - Suc j" and jl: "j < length BLATT_PER_MASECHTA"
    by simp_all
  let ?rest = "take (Suc i - Suc j) (drop (Suc j) BLATT_PER_MASECHTA)"
  have split: "take (Suc i - j) (drop j BLATT_PER_MASECHTA) = BLATT_PER_MASECHTA ! j # ?rest"
  proof -
    have "drop j BLATT_PER_MASECHTA = BLATT_PER_MASECHTA ! j # drop (Suc j) BLATT_PER_MASECHTA"
      using jl by (simp add: Cons_nth_drop_Suc)
    moreover have "Suc i - j = Suc (Suc i - Suc j)"
      using lt by simp
    ultimately show ?thesis by simp
  qed
  have "?rest \<noteq> []"
    using lt Suc.prems(2) by simp
  moreover have "x \<in> set ?rest \<Longrightarrow> 0 < x" for x
    using BLATT_PER_MASECHTA_pos [of x] by (auto dest: in_set_takeD in_set_dropD)
  ultimately have pos: "0 < sum_list ?rest"
    by (rule sum_list_pos_int)
  have "findDaf j (sum_list (take (Suc i - j) (drop j BLATT_PER_MASECHTA))) masechta
      = findDaf (j + 1) (sum_list ?rest) (masechta + 1)"
    using jl pos by (subst findDaf.simps) (simp add: split)
  also have "\<dots> = Some \<lparr>masechtaNumber = masechta + 1 + int (i - Suc j),
      daf = BLATT_PER_MASECHTA ! i + 1\<rparr>"
    using Suc.hyps(1) [OF n lt Suc.prems(2), of "masechta + 1"] by simp
  also have "masechta + 1 + int (i - Suc j) = masechta + int (i - j)"
    using lt by simp
  finally show ?case .
qed

text \<open>
  C1. A returned page is claimed to lie between 1 and the number of pages of its
  volume, with the volume index inside the table. The walk compares with \<^verbatim>\<open><=\<close>, so
  an offset equal to the number of pages of a volume stays in that volume: on the day
  whose adjusted offset is the sum of the pages of the volumes 0 to \<open>i\<close>, the result is
  volume \<open>i\<close> with a page one past the number of pages of that volume. So it is on
  1980-04-10, 68 days after the start of the first cycle and with no special day in
  between: page 69 of the first volume, which has 68 pages.
\<close>

theorem getDafYomiYerushalmi_page_past_masechta:
  assumes "getYomTovIndex jewishCalendar \<noteq> YOM_KIPPUR cal"
    and "getYomTovIndex jewishCalendar \<noteq> TISHA_BEAV cal"
    and "DAF_YOMI_START_DAY \<le> getDate jewishCalendar"
    and "i < length BLATT_PER_MASECHTA"
    and "snd (cycleOffset cal (getDate jewishCalendar)) = sum_list (take (Suc i) BLATT_PER_MASECHTA)"
  shows "getDafYomiYerushalmi cal jewishCalendar
      = Inr (Page \<lparr>masechtaNumber = int i, daf = BLATT_PER_MASECHTA ! i + 1\<rparr>)"
proof -
  have "findDaf 0 (snd (cycleOffset cal (getDate jewishCalendar))) 0
      = Some \<lparr>masechtaNumber = int i, daf = BLATT_PER_MASECHTA ! i + 1\<rparr>"
    using findDaf_end_of_volume [of 0 i 0] assms(4,5) by simp
  with assms(1-3) show ?thesis
    by (simp add: getDafYomiYerushalmi_def PlainDate_compare_less)
qed

theorem getDafYomiYerushalmi_page_past_masechta_witness:
  "getDafYomiYerushalmi calendar5740
     \<lparr>getDate = PlainDate_from 1980 4 10, getYomTovIndex = - 1\<rparr>
     = Inr (Page \<lparr>masechtaNumber = 0, daf = 69\<rparr>)
   \<and> BLATT_PER_MASECHTA ! 0 = 68"
proof -
  let ?jc = "\<lparr>getDate = PlainDate_from 1980 4 10, getYomTovIndex = - 1\<rparr>"
  have yk: "getYomTovIndex ?jc \<noteq> YOM_KIPPUR calendar5740" by code_simp
  have tb: "getYomTovIndex ?jc \<noteq> TISHA_BEAV calendar5740" by code_simp
  have ge: "DAF_YOMI_START_DAY \<le> getDate ?jc" by code_simp
  have i: "0 < length BLATT_PER_MASECHTA" by code_simp
  have off: "snd (cycleOffset calendar5740 (getDate ?jc)) = sum_list (take (Suc 0) BLATT_PER_MASECHTA)"
    by code_simp
  have first: "BLATT_PER_MASECHTA ! 0 = 68" by code_simp
  from getDafYomiYerushalmi_page_past_masechta [OF yk tb ge i off] first show ?thesis
    by simp
qed

section \<open>The two checks\<close>

lemma getDafYomiYerushalmi_holy:
  "getYomTovIndex jewishCalendar = YOM_KIPPUR cal \<or> getYomTovIndex jewishCalendar = TISHA_BEAV cal
   \<Longrightarrow> getDafYomiYerushalmi cal jewishCalendar = Inr Null"
  by (simp add: getDafYomiYerushalmi_def)

text \<open>
  C4. On Yom Kippur and on Tisha B'Av (as \<open>getYomTovIndex\<close> tells) the result is
  \<^verbatim>\<open>null\<close>, whatever the date and whatever the calendar: nothing else of the function
  is evaluated.
\<close>

theorem getDafYomiYerushalmi_no_reading:
  "getYomTovIndex jewishCalendar = YOM_KIPPUR cal \<or> getYomTovIndex jewishCalendar = TISHA_BEAV cal
   \<Longrightarrow> getDafYomiYerushalmi cal jewishCalendar = Inr Null"
  by (rule getDafYomiYerushalmi_holy)

theorem getDafYomiYerushalmi_no_reading_witness:
  "getDafYomiYerushalmi calendar5740
     \<lparr>getDate = PlainDate_from 1980 9 20, getYomTovIndex = 13\<rparr> = Inr Null"
  using getDafYomiYerushalmi_no_reading
    [of "\<lparr>getDate = PlainDate_from 1980 9 20, getYomTovIndex = 13\<rparr>" calendar5740]
  by (simp add: calendar5740_def)

lemma day_1979_08_02: "PlainDate_from 1979 8 2 < DAF_YOMI_START_DAY"
  by code_simp

text \<open>
  C10. The check for the two holy days comes before the check against the start day: for
  a date before the start day that is Yom Kippur or Tisha B'Av the result is \<^verbatim>\<open>null\<close>
  and no exception is thrown.
\<close>

theorem getDafYomiYerushalmi_holy_before_epoch:
  "getDate jewishCalendar < DAF_YOMI_START_DAY
   \<Longrightarrow> getYomTovIndex jewishCalendar = YOM_KIPPUR cal \<or> getYomTovIndex jewishCalendar = TISHA_BEAV cal
   \<Longrightarrow> getDafYomiYerushalmi cal jewishCalendar = Inr Null
       \<and> getDafYomiYerushalmi cal jewishCalendar \<noteq> Inl IllegalArgumentException"
  by (simp add: getDafYomiYerushalmi_holy)

theorem getDafYomiYerushalmi_holy_before_epoch_witness:
  "PlainDate_from 1979 8 2 < DAF_YOMI_START_DAY
   \<and> getDafYomiYerushalmi calendar5740
       \<lparr>getDate = PlainDate_from 1979 8 2, getYomTovIndex = 7\<rparr> = Inr Null"
  using getDafYomiYerushalmi_holy_before_epoch
    [of "\<lparr>getDate = PlainDate_from 1979 8 2, getYomTovIndex = 7\<rparr>" calendar5740]
    day_1979_08_02
  by (simp add: calendar5740_def)

text \<open>
  C3, as stated: every date before the start day is rejected, the two holy days
  included. Yom Kippur 5740 (1979-10-01) is before the start day and is not rejected.
\<close>

theorem getDafYomiYerushalmi_before_epoch_counterexample:
  "getDate \<lparr>getDate = PlainDate_from 1979 10 1, getYomTovIndex = 13\<rparr> < DAF_YOMI_START_DAY
   \<and> getDafYomiYerushalmi calendar5740
       \<lparr>getDate = PlainDate_from 1979 10 1, getYomTovIndex = 13\<rparr>
     \<noteq> Inl IllegalArgumentException"
  by code_simp

text \<open>
  C3, amended: every date before the start day that is neither Yom Kippur nor
  Tisha B'Av is rejected with \<open>IllegalArgumentException\<close>.
\<close>

theorem getDafYomiYerushalmi_before_epoch:
  "getDate jewishCalendar < DAF_YOMI_START_DAY
   \<Longrightarrow> getYomTovIndex jewishCalendar \<noteq> YOM_KIPPUR cal
   \<Longrightarrow> getYomTovIndex jewishCalendar \<noteq> TISHA_BEAV cal
   \<Longrightarrow> getDafYomiYerushalmi cal jewishCalendar = Inl IllegalArgumentException"
  by (simp add: getDafYomiYerushalmi_def PlainDate_compare_less)

lemma day_1980_02_01: "PlainDate_from 1980 2 1 < DAF_YOMI_START_DAY"
  by code_simp

theorem getDafYomiYerushalmi_before_epoch_witness:
  "PlainDate_from 1980 2 1 < DAF_YOMI_START_DAY
   \<and> getDafYomiYerushalmi calendar5740
       \<lparr>getDate = PlainDate_from 1980 2 1, getYomTovIndex = - 1\<rparr> = Inl IllegalArgumentException"
  using getDafYomiYerushalmi_before_epoch
    [of "\<lparr>getDate = PlainDate_from 1980 2 1, getYomTovIndex = - 1\<rparr>" calendar5740]
    day_1980_02_01
  by (simp add: calendar5740_def)

section \<open>The count of special days\<close>

lemma rangeDates_inclusive: "rangeDates start middle end' True = (start \<le> middle \<and> middle \<le> end')"
  by (auto simp: rangeDates_def PlainDate_compare_def)

lemma finite_instancesWithin: "finite (instancesWithin cal start end' a b)"
  by (simp add: instancesWithin_def)

lemma instancesWithin_empty: "b < a \<Longrightarrow> instancesWithin cal start end' a b = {}"
  by (simp add: instancesWithin_def)

lemma instancesWithin_step:
  assumes "a \<le> b"
  shows "instancesWithin cal start end' a b
    = instancesWithin cal start end' a a \<union> instancesWithin cal start end' (a + 1) b"
proof -
  have "{a..b} = {a..a} \<union> {a + 1..b}"
    using assms by auto
  then show ?thesis
    by (auto simp: instancesWithin_def)
qed

lemma instancesWithin_disjoint:
  "instancesWithin cal start end' a a \<inter> instancesWithin cal start end' (a + 1) b = {}"
  by (auto simp: instancesWithin_def)

lemma card_instancesWithin_year:
  "int (card (instancesWithin cal start end' a a))
    = (if rangeDates start (jewishToDate cal a 7 10) end' True then 1 else 0)
      + (if rangeDates start (jewishToDate cal a 5 9) end' True then 1 else 0)"
proof -
  let ?yk = "start \<le> jewishToDate cal a 7 10 \<and> jewishToDate cal a 7 10 \<le> end'"
  let ?tb = "start \<le> jewishToDate cal a 5 9 \<and> jewishToDate cal a 5 9 \<le> end'"
  have "instancesWithin cal start end' a a
      = (if ?yk then {(a, YomKippur)} else {}) \<union> (if ?tb then {(a, TishaBeav)} else {})"
    by (auto simp: instancesWithin_def holyDayDate_def split: holyDay.splits if_splits)
  then show ?thesis
    by (simp add: rangeDates_inclusive)
qed

lemma specialDaysLoop_card:
  "specialDaysLoop cal start end' i jewishEndYear specialDays
    = specialDays + int (card (instancesWithin cal start end' i jewishEndYear))"
proof (induction cal start end' i jewishEndYear specialDays rule: specialDaysLoop.induct)
  case (1 cal start end' i jewishEndYear specialDays)
  show ?case
  proof (cases "i \<le> jewishEndYear")
    case True
    have "card (instancesWithin cal start end' i jewishEndYear)
        = card (instancesWithin cal start end' i i)
          + card (instancesWithin cal start end' (i + 1) jewishEndYear)"
      by (subst instancesWithin_step [OF True])
         (simp add: card_Un_disjoint finite_instancesWithin instancesWithin_disjoint)
    then have "int (card (instancesWithin cal start end' i jewishEndYear))
        = (if rangeDates start (jewishToDate cal i 7 10) end' True then 1 else 0)
          + (if rangeDates start (jewishToDate cal i 5 9) end' True then 1 else 0)
          + int (card (instancesWithin cal start end' (i + 1) jewishEndYear))"
      by (simp add: card_instancesWithin_year [symmetric])
    with "1.IH" [OF True] True show ?thesis
      by (subst specialDaysLoop.simps) simp
  next
    case False
    then show ?thesis
      by (subst specialDaysLoop.simps) (simp add: instancesWithin_empty)
  qed
qed

lemma getNumOfSpecialDays_card:
  "getNumOfSpecialDays cal start end'
    = int (card (instancesWithin cal start end' (getJewishYear cal start) (getJewishYear cal end')))"
  by (simp add: getNumOfSpecialDays_def specialDaysLoop_card)


text \<open>
  C5. \<open>getNumOfSpecialDays\<close> returns a number that is not negative: the number of pairs
  (Hebrew year, holy day) of the two excluded holy days whose date lies between \<open>start\<close>
  and \<open>end'\<close>, both ends included, over the Hebrew years from that of \<open>start\<close> to that of
  \<open>end'\<close>, each pair counted once.
\<close>

theorem getNumOfSpecialDays_counts_instances:
  "0 \<le> getNumOfSpecialDays cal start end'
   \<and> getNumOfSpecialDays cal start end' = int (countSpecialDays_spec cal start end')"
  by (simp add: getNumOfSpecialDays_card countSpecialDays_spec_def)

section \<open>The cycle search\<close>

lemma cycleLoop_stop: "\<not> nextCycle < requested \<Longrightarrow> cycleLoop cal requested nextCycle prevCycle = (prevCycle, nextCycle)"
  by (subst cycleLoop.simps) (simp add: PlainDate_compare_less)

lemma cycleBoundary_Suc_greater: "cycleBoundary cal k < cycleBoundary cal (Suc k)"
  using getNumOfSpecialDays_nonneg [of cal "cycleBoundary cal k" "cycleBoundary cal k + WHOLE_SHAS_DAFS"]
  by (simp add: WHOLE_SHAS_DAFS_def)

lemma cycleBoundary_mono: "j \<le> k \<Longrightarrow> cycleBoundary cal j \<le> cycleBoundary cal k"
proof (induction k)
  case 0
  then show ?case by simp
next
  case (Suc k)
  show ?case
  proof (cases "j = Suc k")
    case True
    then show ?thesis by simp
  next
    case False
    with Suc.prems have "j \<le> k" by simp
    from Suc.IH [OF this] cycleBoundary_Suc_greater [of cal k] show ?thesis by linarith
  qed
qed

lemma cycleLoop_step:
  "nextCycle < requested \<Longrightarrow>
   cycleLoop cal requested nextCycle prevCycle =
     cycleLoop cal requested
       (nextCycle + WHOLE_SHAS_DAFS
          + getNumOfSpecialDays cal nextCycle (nextCycle + WHOLE_SHAS_DAFS))
       nextCycle"
  by (subst cycleLoop.simps) (simp add: PlainDate_compare_less)

lemma cycleLoop_to_boundary:
  "j \<le> k \<Longrightarrow>
   cycleLoop cal (cycleBoundary cal (Suc k)) (cycleBoundary cal j) prevCycle
     = (cycleBoundary cal k, cycleBoundary cal (Suc k))"
proof (induction "k - j" arbitrary: j prevCycle)
  case 0
  then have jk: "j = k" by simp
  have "cycleLoop cal (cycleBoundary cal (Suc k)) (cycleBoundary cal k) prevCycle
      = cycleLoop cal (cycleBoundary cal (Suc k)) (cycleBoundary cal (Suc k)) (cycleBoundary cal k)"
    using cycleLoop_step [OF cycleBoundary_Suc_greater [of cal k], of cal prevCycle] by simp
  also have "\<dots> = (cycleBoundary cal k, cycleBoundary cal (Suc k))"
    by (simp add: cycleLoop_stop)
  finally show ?case using jk by simp
next
  case (Suc n)
  then have lt: "Suc j \<le> k" and n: "n = k - Suc j" by simp_all
  have "cycleBoundary cal j < cycleBoundary cal (Suc k)"
    using cycleBoundary_mono [of j k cal] Suc.prems cycleBoundary_Suc_greater [of cal k]
    by linarith
  then have "cycleLoop cal (cycleBoundary cal (Suc k)) (cycleBoundary cal j) prevCycle
      = cycleLoop cal (cycleBoundary cal (Suc k)) (cycleBoundary cal (Suc j)) (cycleBoundary cal j)"
    using cycleLoop_step [of "cycleBoundary cal j" "cycleBoundary cal (Suc k)" cal prevCycle]
    by simp
  also have "\<dots> = (cycleBoundary cal k, cycleBoundary cal (Suc k))"
    by (rule Suc.hyps(1) [OF n lt])
  finally show ?case .
qed

lemma findDaf_whole_cycle: "findDaf 0 1554 0 = Some \<lparr>masechtaNumber = 38, daf = 14\<rparr>"
  by code_simp

section \<open>The start day\<close>

lemma getNumOfSpecialDays_same_day:
  "jewishToDate cal (getJewishYear cal d) 7 10 \<noteq> d
   \<Longrightarrow> jewishToDate cal (getJewishYear cal d) 5 9 \<noteq> d
   \<Longrightarrow> getNumOfSpecialDays cal d d = 0"
  by (simp add: getNumOfSpecialDays_def specialDaysLoop.simps [of _ _ _ "getJewishYear cal d"]
        specialDaysLoop.simps [of _ _ _ "getJewishYear cal d + 1"] rangeDates_inclusive)

lemma findDaf_first_page: "findDaf 0 0 0 = Some \<lparr>masechtaNumber = 0, daf = 1\<rparr>"
  by (subst findDaf.simps) (simp add: BLATT_PER_MASECHTA_def)

text \<open>
  C7. For the start day itself (February 2, 1980, which is 15 Shevat 5740 and so neither
  Yom Kippur nor Tisha B'Av, nor 10 Tishrei or 9 Av of its Hebrew year) the result is
  volume 0, page 1.
\<close>

theorem getDafYomiYerushalmi_start_day:
  assumes "getDate jewishCalendar = DAF_YOMI_START_DAY"
    and "getYomTovIndex jewishCalendar \<noteq> YOM_KIPPUR cal"
    and "getYomTovIndex jewishCalendar \<noteq> TISHA_BEAV cal"
    and "jewishToDate cal (getJewishYear cal DAF_YOMI_START_DAY) 7 10 \<noteq> DAF_YOMI_START_DAY"
    and "jewishToDate cal (getJewishYear cal DAF_YOMI_START_DAY) 5 9 \<noteq> DAF_YOMI_START_DAY"
  shows "getDafYomiYerushalmi cal jewishCalendar = Inr (Page \<lparr>masechtaNumber = 0, daf = 1\<rparr>)"
proof -
  have "cycleOffset cal DAF_YOMI_START_DAY = (DAF_YOMI_START_DAY, 0)"
    by (simp add: cycleOffset_def cycleLoop_stop getNumOfSpecialDays_same_day assms(4,5))
  with assms(1-3) show ?thesis
    by (simp add: getDafYomiYerushalmi_def PlainDate_compare_less findDaf_first_page)
qed

theorem getDafYomiYerushalmi_start_day_witness:
  "getDafYomiYerushalmi calendar5740 \<lparr>getDate = PlainDate_from 1980 2 2, getYomTovIndex = 23\<rparr>
     = Inr (Page \<lparr>masechtaNumber = 0, daf = 1\<rparr>)"
proof -
  let ?jc = "\<lparr>getDate = PlainDate_from 1980 2 2, getYomTovIndex = 23\<rparr>"
  have d: "getDate ?jc = DAF_YOMI_START_DAY" by code_simp
  have yk: "getYomTovIndex ?jc \<noteq> YOM_KIPPUR calendar5740" by code_simp
  have tb: "getYomTovIndex ?jc \<noteq> TISHA_BEAV calendar5740" by code_simp
  have tishrei: "jewishToDate calendar5740 (getJewishYear calendar5740 DAF_YOMI_START_DAY) 7 10
      \<noteq> DAF_YOMI_START_DAY" by code_simp
  have av: "jewishToDate calendar5740 (getJewishYear calendar5740 DAF_YOMI_START_DAY) 5 9
      \<noteq> DAF_YOMI_START_DAY" by code_simp
  show ?thesis
    by (rule getDafYomiYerushalmi_start_day [OF d yk tb tishrei av])
qed

section \<open>The start of a later cycle\<close>

text \<open>
  C2. A date on a later cycle boundary is claimed to give volume 0, page 1. The loop
  runs while \<open>nextCycle\<close> is before the requested date, so on the boundary \<open>k + 1\<close> it
  stops with \<open>prevCycle\<close> at the boundary \<open>k\<close>. When the special days counted from there
  to the requested date are those that moved the boundary, the adjusted offset is 1554
  and the result is page 14 of the last volume, which has 13 pages. So it is on
  1984-05-13, the first boundary after the start day (1554 days and 8 special days
  later); the day after, the result is page 2 of the first volume.
\<close>

theorem getDafYomiYerushalmi_on_cycle_boundary:
  assumes "getDate jewishCalendar = cycleBoundary cal (Suc k)"
    and "getYomTovIndex jewishCalendar \<noteq> YOM_KIPPUR cal"
    and "getYomTovIndex jewishCalendar \<noteq> TISHA_BEAV cal"
    and "getNumOfSpecialDays cal (cycleBoundary cal k) (cycleBoundary cal (Suc k))
       = getNumOfSpecialDays cal (cycleBoundary cal k) (cycleBoundary cal k + WHOLE_SHAS_DAFS)"
  shows "getDafYomiYerushalmi cal jewishCalendar = Inr (Page \<lparr>masechtaNumber = 38, daf = 14\<rparr>)"
proof -
  let ?requested = "cycleBoundary cal (Suc k)"
  have "cycleLoop cal ?requested DAF_YOMI_START_DAY DAF_YOMI_START_DAY
      = (cycleBoundary cal k, ?requested)"
    using cycleLoop_to_boundary [of 0 k cal DAF_YOMI_START_DAY] by simp
  then have "cycleOffset cal ?requested = (cycleBoundary cal k, 1554)"
    using assms(4) by (simp add: cycleOffset_def Let_def WHOLE_SHAS_DAFS_def)
  moreover have "\<not> ?requested < DAF_YOMI_START_DAY"
    using cycleBoundary_mono [of 0 "Suc k" cal] by simp
  ultimately show ?thesis
    using assms(1-3)
    by (simp add: getDafYomiYerushalmi_def PlainDate_compare_less findDaf_whole_cycle)
qed

theorem getDafYomiYerushalmi_on_cycle_boundary_witness:
  "PlainDate_from 1984 5 13 = cycleBoundary calendar5740 (Suc 0)
   \<and> getDafYomiYerushalmi calendar5740
       \<lparr>getDate = PlainDate_from 1984 5 13, getYomTovIndex = - 1\<rparr>
     = Inr (Page \<lparr>masechtaNumber = 38, daf = 14\<rparr>)
   \<and> BLATT_PER_MASECHTA ! 38 = 13
   \<and> getDafYomiYerushalmi calendar5740
       \<lparr>getDate = PlainDate_from 1984 5 14, getYomTovIndex = - 1\<rparr>
     = Inr (Page \<lparr>masechtaNumber = 0, daf = 2\<rparr>)"
proof -
  let ?jc = "\<lparr>getDate = PlainDate_from 1984 5 13, getYomTovIndex = - 1\<rparr>"
  have d: "getDate ?jc = cycleBoundary calendar5740 (Suc 0)" by code_simp
  have yk: "getYomTovIndex ?jc \<noteq> YOM_KIPPUR calendar5740" by code_simp
  have tb: "getYomTovIndex ?jc \<noteq> TISHA_BEAV calendar5740" by code_simp
  have same: "getNumOfSpecialDays calendar5740 (cycleBoundary calendar5740 0)
        (cycleBoundary calendar5740 (Suc 0))
      = getNumOfSpecialDays calendar5740 (cycleBoundary calendar5740 0)
          (cycleBoundary calendar5740 0 + WHOLE_SHAS_DAFS)" by code_simp
  have last: "BLATT_PER_MASECHTA ! 38 = 13" by code_simp
  have after: "getDafYomiYerushalmi calendar5740
      \<lparr>getDate = PlainDate_from 1984 5 14, getYomTovIndex = - 1\<rparr>
    = Inr (Page \<lparr>masechtaNumber = 0, daf = 2\<rparr>)" by code_simp
  from getDafYomiYerushalmi_on_cycle_boundary [OF d yk tb same] d last after show ?thesis
    by simp
qed

section \<open>Offsets within a cycle\<close>

text \<open>
  C9. Two dates \<open>d1 < d2\<close> of the same cycle (the search settles on the same
  \<open>prevCycle\<close> for both) with no excluded holy day after \<open>d1\<close> and up to \<open>d2\<close> are
  claimed to have adjusted offsets with that of \<open>d1\<close> below that of \<open>d2\<close>.
  \<open>getNumOfSpecialDays\<close> counts 9 Av of every Hebrew year, also when 9 Av is a Shabbat
  and the fast is kept on 10 Av: then \<open>getYomTovIndex\<close> is not \<open>TISHA_BEAV\<close> on 9 Av and
  the day gets a page. So it is on 1985-07-27 (9 Av 5745, a Shabbat): that day and the day
  before are of the same cycle, both have the adjusted offset 437 and both get page 45 of
  volume 11. On 1985-07-28, the day of the fast, the result is \<^verbatim>\<open>null\<close>, and 1985-07-29
  gets page 47: page 46 is left out.
\<close>

theorem cycleOffset_repeats_on_nine_av:
  "PlainDate_from 1985 7 27 = PlainDate_from 1985 7 26 + 1
   \<and> jewishToDate calendar5740 (getJewishYear calendar5740 (PlainDate_from 1985 7 27)) 5 9
     = PlainDate_from 1985 7 27
   \<and> fst (cycleOffset calendar5740 (PlainDate_from 1985 7 26))
     = fst (cycleOffset calendar5740 (PlainDate_from 1985 7 27))
   \<and> snd (cycleOffset calendar5740 (PlainDate_from 1985 7 26)) = 437
   \<and> snd (cycleOffset calendar5740 (PlainDate_from 1985 7 27)) = 437
   \<and> \<not> snd (cycleOffset calendar5740 (PlainDate_from 1985 7 26))
       < snd (cycleOffset calendar5740 (PlainDate_from 1985 7 27))
   \<and> getDafYomiYerushalmi calendar5740
       \<lparr>getDate = PlainDate_from 1985 7 26, getYomTovIndex = - 1\<rparr>
     = Inr (Page \<lparr>masechtaNumber = 11, daf = 45\<rparr>)
   \<and> getDafYomiYerushalmi calendar5740
       \<lparr>getDate = PlainDate_from 1985 7 27, getYomTovIndex = - 1\<rparr>
     = Inr (Page \<lparr>masechtaNumber = 11, daf = 45\<rparr>)
   \<and> getDafYomiYerushalmi calendar5740
       \<lparr>getDate = PlainDate_from 1985 7 28, getYomTovIndex = 7\<rparr>
     = Inr Null
   \<and> getDafYomiYerushalmi calendar5740
       \<lparr>getDate = PlainDate_from 1985 7 29, getYomTovIndex = - 1\<rparr>
     = Inr (Page \<lparr>masechtaNumber = 11, daf = 47\<rparr>)"
  by code_simp

end
